theory Spec2Isabelle
  imports Main "HOL-Library.AList"
begin

section \<open>JavaScript values\<close>

text \<open>
  The store holds whatever the backend answered, and the component reads whatever the
  store and its parent hand over: the source declares no types. Values are therefore
  modelled as the trees JSON can carry, plus \<open>undefined\<close>. Numbers are integers (the
  ids of the backend); an object is the list of its own properties in insertion order.
  A string is the list of its UTF-16 code units, each a number; \<open>str\<close> gives the code
  units of a literal of the source, which is ASCII text. Property names are such
  literals and stay as they are written.
\<close>

type_synonym ustring = "nat list"

definition str :: "string \<Rightarrow> ustring" where
  "str s = map of_char s"

datatype jsval =
    JUndefined
  | JNull
  | JBool bool
  | JNum int
  | JStr ustring
  | JArr "jsval list"
  | JObj "(string \<times> jsval) list"

text \<open>
  The runtime errors of the modelled code: \<open>TypeError\<close> is what reading a property of
  \<open>undefined\<close> or \<open>null\<close>, or calling something that is not a function, throws;
  \<open>Rejected\<close> is the rejection of a request by the HTTP client.
\<close>

datatype error = TypeError | Rejected

text \<open>
  \<open>v.k\<close> for the property names the source reads (\<open>solutions\<close>, \<open>id\<close>, \<open>countries\<close>,
  \<open>label\<close>, \<open>name\<close>, \<open>email\<close>): none of them is a property of a boolean, number, string
  or array, nor inherited by an object, so only an object's own property can answer.
\<close>

fun get_prop :: "jsval \<Rightarrow> string \<Rightarrow> error + jsval" where
  "get_prop JUndefined k = Inl TypeError"
| "get_prop JNull k = Inl TypeError"
| "get_prop (JObj fs) k = Inr (case map_of fs k of None \<Rightarrow> JUndefined | Some v \<Rightarrow> v)"
| "get_prop v k = Inr JUndefined"

text \<open>
  \<open>a === b\<close>. Primitives are compared by value. Arrays and objects are compared by
  identity, which a tree does not carry: the operands compared in the source are read
  from two different containers, so two of them are never the same allocation.
\<close>

fun strict_eq :: "jsval \<Rightarrow> jsval \<Rightarrow> bool" where
  "strict_eq JUndefined b = (b = JUndefined)"
| "strict_eq JNull b = (b = JNull)"
| "strict_eq (JBool x) b = (b = JBool x)"
| "strict_eq (JNum x) b = (b = JNum x)"
| "strict_eq (JStr x) b = (b = JStr x)"
| "strict_eq (JArr x) b = False"
| "strict_eq (JObj x) b = False"

text \<open>Truthiness, as \<open>if (v)\<close> and \<open>v ? a : b\<close> test it.\<close>

fun truthy :: "jsval \<Rightarrow> bool" where
  "truthy JUndefined = False"
| "truthy JNull = False"
| "truthy (JBool b) = b"
| "truthy (JNum n) = (n \<noteq> 0)"
| "truthy (JStr s) = (s \<noteq> [])"
| "truthy (JArr xs) = True"
| "truthy (JObj fs) = True"

text \<open>
  \<open>xs.map(f)\<close>: only an array has the method; anything else throws. The callback is
  applied from left to right and the first exception ends the call.
\<close>

fun map_result :: "('a \<Rightarrow> error + 'b) \<Rightarrow> 'a list \<Rightarrow> error + 'b list" where
  "map_result f [] = Inr []"
| "map_result f (x # xs) =
     (case f x of
        Inl e \<Rightarrow> Inl e
      | Inr y \<Rightarrow> (case map_result f xs of Inl e \<Rightarrow> Inl e | Inr ys \<Rightarrow> Inr (y # ys)))"

fun array_map :: "(jsval \<Rightarrow> error + jsval) \<Rightarrow> jsval \<Rightarrow> error + jsval" where
  "array_map f (JArr xs) = (case map_result f xs of Inl e \<Rightarrow> Inl e | Inr ys \<Rightarrow> Inr (JArr ys))"
| "array_map f v = Inl TypeError"

text \<open>
  \<open>xs.find(p)\<close>: the first element the predicate accepts, \<open>undefined\<close> when there is
  none; an exception of the predicate ends the search.
\<close>

fun find_result :: "(jsval \<Rightarrow> error + bool) \<Rightarrow> jsval list \<Rightarrow> error + jsval" where
  "find_result p [] = Inr JUndefined"
| "find_result p (x # xs) =
     (case p x of
        Inl e \<Rightarrow> Inl e
      | Inr b \<Rightarrow> if b then Inr x else find_result p xs)"

fun array_find :: "(jsval \<Rightarrow> error + bool) \<Rightarrow> jsval \<Rightarrow> error + jsval" where
  "array_find p (JArr xs) = find_result p xs"
| "array_find p v = Inl TypeError"

text \<open>\<open>xs.filter(p)\<close>: the elements the predicate accepts, in order.\<close>

fun filter_result :: "(jsval \<Rightarrow> error + bool) \<Rightarrow> jsval list \<Rightarrow> error + jsval list" where
  "filter_result p [] = Inr []"
| "filter_result p (x # xs) =
     (case p x of
        Inl e \<Rightarrow> Inl e
      | Inr b \<Rightarrow>
          (case filter_result p xs of
             Inl e \<Rightarrow> Inl e
           | Inr ys \<Rightarrow> Inr (if b then x # ys else ys)))"

fun array_filter :: "(jsval \<Rightarrow> error + bool) \<Rightarrow> jsval \<Rightarrow> error + jsval" where
  "array_filter p (JArr xs) =
     (case filter_result p xs of Inl e \<Rightarrow> Inl e | Inr ys \<Rightarrow> Inr (JArr ys))"
| "array_filter p v = Inl TypeError"

text \<open>Decimal digits of a natural number, for array indices and for \<open>String(n)\<close>.\<close>

fun digits :: "nat \<Rightarrow> string" where
  "digits n = (if n < 10 then [char_of (48 + n)] else digits (n div 10) @ [char_of (48 + n mod 10)])"

declare digits.simps [simp del]

text \<open>
  The own enumerable properties \<open>{...v}\<close> copies: those of an object, the indices of an
  array or of a string, none for the other values.
\<close>

fun spread :: "jsval \<Rightarrow> (string \<times> jsval) list" where
  "spread (JObj fs) = fs"
| "spread (JArr xs) = zip (map digits [0..<length xs]) xs"
| "spread (JStr s) = zip (map digits [0..<length s]) (map (\<lambda>c. JStr [c]) s)"
| "spread v = []"

text \<open>
  \<open>String(v)\<close>, which a template literal applies to what it interpolates. An integer
  is written in decimal, as JavaScript writes the integers below \<open>10^21\<close>; an array is
  the comma-separated strings of its elements, \<open>null\<close> and \<open>undefined\<close> giving the
  empty string.
\<close>

fun join_comma :: "ustring list \<Rightarrow> ustring" where
  "join_comma [] = []"
| "join_comma [s] = s"
| "join_comma (s # t # ss) = s @ str '','' @ join_comma (t # ss)"

fun to_string :: "jsval \<Rightarrow> ustring" where
  "to_string JUndefined = str ''undefined''"
| "to_string JNull = str ''null''"
| "to_string (JBool b) = (if b then str ''true'' else str ''false'')"
| "to_string (JNum n) =
     (if n < 0 then str ''-'' @ str (digits (nat (- n))) else str (digits (nat n)))"
| "to_string (JStr s) = s"
| "to_string (JArr xs) =
     join_comma (map (\<lambda>x. if x = JUndefined \<or> x = JNull then [] else to_string x) xs)"
| "to_string (JObj fs) = str ''[object Object]''"

section \<open>The solutions store module\<close>

record store =
  allSolutionsList :: jsval
  allActiveSolutionsList :: jsval

definition cleanState :: store where
  "cleanState = \<lparr>allSolutionsList = JObj [], allActiveSolutionsList = JArr []\<rparr>"

text \<open>\<open>state = () => ({...cleanState()})\<close>: a copy of the clean state, field by field.\<close>

definition state :: store where
  "state =
     \<lparr>allSolutionsList = allSolutionsList cleanState,
      allActiveSolutionsList = allActiveSolutionsList cleanState\<rparr>"

subsection \<open>Getters\<close>

definition getSolutionsList :: "store \<Rightarrow> error + jsval" where
  "getSolutionsList s = get_prop (allSolutionsList s) ''solutions''"

definition getAllActiveSolutionsList :: "store \<Rightarrow> jsval" where
  "getAllActiveSolutionsList s = allActiveSolutionsList s"

text \<open>The predicate of the lookup: \<open>(activeSolution) => activeSolution.id === solution.id\<close>.\<close>

definition same_id :: "jsval \<Rightarrow> jsval \<Rightarrow> error + bool" where
  "same_id solution activeSolution =
     (case get_prop activeSolution ''id'' of
        Inl e \<Rightarrow> Inl e
      | Inr a \<Rightarrow>
          (case get_prop solution ''id'' of
             Inl e \<Rightarrow> Inl e
           | Inr b \<Rightarrow> Inr (strict_eq a b)))"

text \<open>
  The callback of the map: the solution's own properties, with \<open>countries\<close> set to the
  \<open>countries\<close> of what the lookup found. An existing \<open>countries\<close> key keeps its place,
  a new one goes last.
\<close>

definition with_countries :: "store \<Rightarrow> jsval \<Rightarrow> error + jsval" where
  "with_countries s solution =
     (case array_find (same_id solution) (allActiveSolutionsList s) of
        Inl e \<Rightarrow> Inl e
      | Inr found \<Rightarrow>
          (case get_prop found ''countries'' of
             Inl e \<Rightarrow> Inl e
           | Inr c \<Rightarrow> Inr (JObj (AList.update ''countries'' c (spread solution)))))"

definition getSolutionsListWithCountries :: "store \<Rightarrow> error + jsval" where
  "getSolutionsListWithCountries s =
     (case get_prop (allSolutionsList s) ''solutions'' of
        Inl e \<Rightarrow> Inl e
      | Inr solutions \<Rightarrow> array_map (with_countries s) solutions)"

text \<open>
  A getter is handed the state and computes from it; none of the getters above assigns
  to it. Evaluating one therefore leaves the store as it was, whether the getter returns
  or throws.
\<close>

definition evaluate :: "(store \<Rightarrow> 'a) \<Rightarrow> store \<Rightarrow> 'a \<times> store" where
  "evaluate getter s = (getter s, s)"

subsection \<open>Mutations\<close>

definition PUT_SOLUTION_LIST :: "store \<Rightarrow> jsval \<Rightarrow> store" where
  "PUT_SOLUTION_LIST s data = s\<lparr>allSolutionsList := data\<rparr>"

definition PUT_ALL_ACTIVE_SOLUTIONS_LIST :: "store \<Rightarrow> jsval \<Rightarrow> store" where
  "PUT_ALL_ACTIVE_SOLUTIONS_LIST s data = s\<lparr>allActiveSolutionsList := data\<rparr>"

subsection \<open>Actions\<close>

text \<open>
  The HTTP client is a parameter: it answers a request with the body of the response
  (\<open>response.data\<close>) or rejects it. What an action did is the list of requests it
  issued, what it returned or threw, and the store it left behind.
\<close>

datatype request = GET ustring

type_synonym network = "request \<Rightarrow> error + jsval"

record outcome =
  issued :: "request list"
  returned :: "error + jsval"
  after :: store

definition loadSolutionsList :: "network \<Rightarrow> store \<Rightarrow> jsval \<Rightarrow> outcome" where
  "loadSolutionsList net s pid =
     (let req = GET (str ''/api/portfolio/'' @ to_string pid) in
      case net req of
        Inl e \<Rightarrow> \<lparr>issued = [req], returned = Inl e, after = s\<rparr>
      | Inr data \<Rightarrow> \<lparr>issued = [req], returned = Inr data, after = PUT_SOLUTION_LIST s data\<rparr>)"

definition loadAllActiveSolutionsList :: "network \<Rightarrow> store \<Rightarrow> outcome" where
  "loadAllActiveSolutionsList net s =
     (let req = GET (str ''api/solution'') in
      case net req of
        Inl e \<Rightarrow> \<lparr>issued = [req], returned = Inl e, after = s\<rparr>
      | Inr data \<Rightarrow>
          \<lparr>issued = [req], returned = Inr data, after = PUT_ALL_ACTIVE_SOLUTIONS_LIST s data\<rparr>)"

text \<open>
  Where a request goes. \<open>this.$axios\<close> is an axios instance with a base URL, and the two
  addresses the actions ask for are relative. axios sends such a request to the base URL
  joined with the address (its \<open>combineURLs\<close>): the slashes that end the base URL and the
  slashes that begin the address are replaced by a single slash. The base URL is set
  outside the source and is a parameter here.
\<close>

definition combineURLs :: "ustring \<Rightarrow> ustring \<Rightarrow> ustring" where
  "combineURLs baseURL relativeURL =
     (if relativeURL = [] then baseURL
      else rev (dropWhile (\<lambda>u. u = 47) (rev baseURL)) @ [47]
           @ dropWhile (\<lambda>u. u = 47) relativeURL)"

fun sent_to :: "ustring \<Rightarrow> request \<Rightarrow> ustring" where
  "sent_to baseURL (GET url) = combineURLs baseURL url"

section \<open>The TeamSelector component\<close>

text \<open>
  What the component reads and writes: the \<open>value\<close> prop, the profile list the getter
  \<open>system/getUserProfilesWithLabel\<close> supplies, and its own \<open>filteredOptions\<close>.
\<close>

record component =
  value_prop :: jsval
  userProfiles :: jsval
  filteredOptions :: jsval

text \<open>\<open>data()\<close>: a fresh component has no options.\<close>

definition data :: "jsval \<Rightarrow> jsval \<Rightarrow> component" where
  "data v profiles = \<lparr>value_prop = v, userProfiles = profiles, filteredOptions = JArr []\<rparr>"

datatype event = Emit string jsval

text \<open>The two lookups: \<open>(profile) => profile.id === userId\<close> and \<open>profile.label === label\<close>.\<close>

definition prop_is :: "string \<Rightarrow> jsval \<Rightarrow> jsval \<Rightarrow> error + bool" where
  "prop_is k wanted profile =
     (case get_prop profile k of Inl e \<Rightarrow> Inl e | Inr v \<Rightarrow> Inr (strict_eq v wanted))"

definition innerValue_get :: "component \<Rightarrow> error + jsval" where
  "innerValue_get c =
     array_map
       (\<lambda>userId.
          case array_find (prop_is ''id'' userId) (userProfiles c) of
            Inl e \<Rightarrow> Inl e
          | Inr profile \<Rightarrow> get_prop profile ''label'')
       (value_prop c)"

definition innerValue_set :: "component \<Rightarrow> jsval \<Rightarrow> error + event" where
  "innerValue_set c v =
     (case array_map
             (\<lambda>label.
                case array_find (prop_is ''label'' label) (userProfiles c) of
                  Inl e \<Rightarrow> Inl e
                | Inr profile \<Rightarrow> get_prop profile ''id'')
             v of
        Inl e \<Rightarrow> Inl e
      | Inr idArray \<Rightarrow> Inr (Emit ''change'' idArray))"

text \<open>
  \<open>toLowerCase\<close>. On a string of ASCII code units it turns A to Z into a to z and leaves
  the rest. Beyond ASCII the result is what the engine's Unicode lowering gives for the
  whole string; that lowering is not made code unit by code unit (a capital sigma becomes
  one of two letters, depending on its place in the word), and it is a parameter here.
  Only a string has the method.
\<close>

definition ascii_lower :: "nat \<Rightarrow> nat" where
  "ascii_lower u = (if 65 \<le> u \<and> u \<le> 90 then u + 32 else u)"

definition is_ascii :: "ustring \<Rightarrow> bool" where
  "is_ascii s = list_all (\<lambda>u. u < 128) s"

definition lowered :: "(ustring \<Rightarrow> ustring) \<Rightarrow> ustring \<Rightarrow> ustring" where
  "lowered engine s = (if is_ascii s then map ascii_lower s else engine s)"

fun toLowerCase :: "(ustring \<Rightarrow> ustring) \<Rightarrow> jsval \<Rightarrow> error + ustring" where
  "toLowerCase engine (JStr s) = Inr (lowered engine s)"
| "toLowerCase engine v = Inl TypeError"

definition startsWith :: "ustring \<Rightarrow> ustring \<Rightarrow> bool" where
  "startsWith s q = (take (length q) s = q)"

definition filter_fn :: "(ustring \<Rightarrow> ustring) \<Rightarrow> jsval \<Rightarrow> jsval \<Rightarrow> error + bool" where
  "filter_fn engine val query =
     (case toLowerCase engine val of
        Inl e \<Rightarrow> Inl e
      | Inr v \<Rightarrow>
          (case toLowerCase engine query of
             Inl e \<Rightarrow> Inl e
           | Inr q \<Rightarrow> Inr (startsWith v q)))"

text \<open>
  The predicate of the filter:
  \<open>filter(p.name ? p.name : p.email, query) || (p.email ? filter(p.email, query) : false)\<close>.
\<close>

definition option_matches :: "(ustring \<Rightarrow> ustring) \<Rightarrow> jsval \<Rightarrow> jsval \<Rightarrow> error + bool" where
  "option_matches engine query p =
     (case get_prop p ''name'' of
        Inl e \<Rightarrow> Inl e
      | Inr name \<Rightarrow>
          (case (if truthy name then Inr name else get_prop p ''email'') of
             Inl e \<Rightarrow> Inl e
           | Inr val \<Rightarrow>
               (case filter_fn engine val query of
                  Inl e \<Rightarrow> Inl e
                | Inr b \<Rightarrow>
                    if b then Inr True
                    else
                      (case get_prop p ''email'' of
                         Inl e \<Rightarrow> Inl e
                       | Inr email \<Rightarrow>
                           if truthy email then filter_fn engine email query
                           else Inr False))))"

text \<open>An exception leaves \<open>filteredOptions\<close> as it was: the assignment is not reached.\<close>

definition filterMethod :: "(ustring \<Rightarrow> ustring) \<Rightarrow> component \<Rightarrow> jsval \<Rightarrow> error + component" where
  "filterMethod engine c query =
     (if truthy query then
        (case array_filter (option_matches engine query) (userProfiles c) of
           Inl e \<Rightarrow> Inl e
         | Inr r \<Rightarrow> Inr (c\<lparr>filteredOptions := r\<rparr>))
      else Inr (c\<lparr>filteredOptions := JArr []\<rparr>))"

section \<open>Reading values without the exceptions\<close>

text \<open>
  The statements below speak of "the \<open>id\<close> of a solution" or "the \<open>label\<close> of a
  profile". \<open>field v k\<close> is that value: what \<open>v.k\<close> evaluates to, \<open>undefined\<close> where
  there is nothing to read.
\<close>

definition field :: "jsval \<Rightarrow> string \<Rightarrow> jsval" where
  "field v k = (case get_prop v k of Inl e \<Rightarrow> JUndefined | Inr x \<Rightarrow> x)"

fun is_obj :: "jsval \<Rightarrow> bool" where
  "is_obj (JObj fs) = True"
| "is_obj v = False"

fun elements :: "jsval \<Rightarrow> jsval list" where
  "elements (JArr xs) = xs"
| "elements v = []"

text \<open>\<open>has_prop k v x\<close>: the record \<open>x\<close> carries the value \<open>v\<close> under the key \<open>k\<close>.\<close>

definition has_prop :: "string \<Rightarrow> jsval \<Rightarrow> jsval \<Rightarrow> bool" where
  "has_prop k v x = strict_eq (field x k) v"

text \<open>\<open>has_id_of solution a\<close>: the active solution \<open>a\<close> has the id of \<open>solution\<close>.\<close>

definition has_id_of :: "jsval \<Rightarrow> jsval \<Rightarrow> bool" where
  "has_id_of solution a = has_prop ''id'' (field solution ''id'') a"

section \<open>Profiles and prefixes\<close>

text \<open>
  A profile is a record whose \<open>name\<close> and \<open>email\<close> are each a string or missing
  (\<open>null\<close> or absent), with something to match against: a non-empty name or an email
  that is a string.
\<close>

fun text_or_missing :: "jsval \<Rightarrow> bool" where
  "text_or_missing (JStr s) = True"
| "text_or_missing JNull = True"
| "text_or_missing JUndefined = True"
| "text_or_missing v = False"

fun is_str :: "jsval \<Rightarrow> bool" where
  "is_str (JStr s) = True"
| "is_str v = False"

definition wf_profile :: "jsval \<Rightarrow> bool" where
  "wf_profile p =
     (is_obj p \<and> text_or_missing (field p ''name'') \<and> text_or_missing (field p ''email'')
      \<and> (truthy (field p ''name'') \<or> is_str (field p ''email'')))"

text \<open>
  \<open>lower_prefix_of engine q v\<close>: \<open>v\<close> is a string and the lower-cased query is a prefix
  of the lower-cased \<open>v\<close>. \<open>ci_prefix q s\<close>: the string \<open>s\<close> begins with a string that
  equals \<open>q\<close> up to the case of the ASCII letters.
\<close>

fun lower_prefix_of :: "(ustring \<Rightarrow> ustring) \<Rightarrow> ustring \<Rightarrow> jsval \<Rightarrow> bool" where
  "lower_prefix_of engine q (JStr s) = startsWith (lowered engine s) (lowered engine q)"
| "lower_prefix_of engine q v = False"

definition matches_query :: "(ustring \<Rightarrow> ustring) \<Rightarrow> ustring \<Rightarrow> jsval \<Rightarrow> bool" where
  "matches_query engine q p =
     (lower_prefix_of engine q (field p ''name'') \<or> lower_prefix_of engine q (field p ''email''))"

definition ci_prefix :: "ustring \<Rightarrow> ustring \<Rightarrow> bool" where
  "ci_prefix q s = (map ascii_lower (take (length q) s) = map ascii_lower q)"

text \<open>
  Profiles whose labels tell their ids apart: records with a string for a label, where
  two profiles with the same label have the same id.
\<close>

definition labelled :: "jsval \<Rightarrow> bool" where
  "labelled p = (is_obj p \<and> is_str (field p ''label''))"

definition labels_identify :: "jsval list \<Rightarrow> bool" where
  "labels_identify ps =
     list_all (\<lambda>p. list_all (\<lambda>q. field p ''label'' = field q ''label''
                                  \<longrightarrow> field p ''id'' = field q ''id'') ps) ps"

section \<open>Example data\<close>

text \<open>A backend that knows portfolio 12 and the list of active solutions.\<close>

definition portfolio12 :: jsval where
  "portfolio12 =
     JObj [(''solutions'',
       JArr [JObj [(''id'', JNum 1), (''name'', JStr (str ''Drones''))],
             JObj [(''id'', JNum 2), (''countries'', JArr []), (''name'', JStr (str ''Maps''))]])]"

definition active_solutions :: jsval where
  "active_solutions =
     JArr [JObj [(''id'', JNum 2), (''countries'', JArr [JNum 7])],
           JObj [(''id'', JNum 1), (''countries'', JArr [JNum 9, JNum 4])],
           JObj [(''id'', JNum 1), (''countries'', JArr [])]]"

definition backend :: network where
  "backend r =
     (if r = GET (str ''/api/portfolio/12'') then Inr portfolio12
      else if r = GET (str ''api/solution'') then Inr active_solutions
      else Inl Rejected)"

text \<open>A team: two profiles with a name, one known by its email only.\<close>

definition team :: jsval where
  "team =
     JArr [JObj [(''id'', JNum 1), (''name'', JStr (str ''Alice'')), (''email'', JStr (str ''zed@x.org'')),
                 (''label'', JStr (str ''Alice''))],
           JObj [(''id'', JNum 2), (''name'', JNull), (''email'', JStr (str ''Al@x.org'')),
                 (''label'', JStr (str ''Al@x.org''))],
           JObj [(''id'', JNum 3), (''name'', JStr (str ''Bob'')), (''label'', JStr (str ''Bob''))]]"

text \<open>Two users who share a label.\<close>

definition namesakes :: jsval where
  "namesakes =
     JArr [JObj [(''id'', JNum 1), (''label'', JStr (str ''Sam''))],
           JObj [(''id'', JNum 2), (''label'', JStr (str ''Sam''))]]"

text \<open>A profile list that begins with a record without a name and without an email.\<close>

definition nameless_first :: jsval where
  "nameless_first =
     JArr [JObj [(''id'', JNum 5)],
           JObj [(''id'', JNum 1), (''name'', JStr (str ''Alice'')),
                 (''email'', JStr (str ''zed@x.org'')), (''label'', JStr (str ''Alice''))]]"

text \<open>
  A Greek name in capitals, KOSTAS, and its first three letters KOS. Both end in a
  capital sigma (931). Lower-cased, the sigma that ends the word becomes the final sigma
  (962) and the sigma inside the word the ordinary one (963). \<open>greek_engine\<close> is the
  engine's lowering at these two strings; it is not asked about any other.
\<close>

definition kos :: ustring where
  "kos = [922, 937, 931]"

definition kostas :: ustring where
  "kostas = [922, 937, 931, 932, 913, 931]"

definition greek_engine :: "ustring \<Rightarrow> ustring" where
  "greek_engine s =
     (if s = kos then [954, 969, 962]
      else if s = kostas then [954, 969, 963, 964, 945, 962]
      else s)"

definition kostas_team :: jsval where
  "kostas_team =
     JArr [JObj [(''id'', JNum 7), (''name'', JStr kostas), (''email'', JStr (str ''k@x.org''))]]"

text \<open>A store whose active list lacks solution 1 of the loaded portfolio.\<close>

definition stale_store :: store where
  "stale_store =
     \<lparr>allSolutionsList = portfolio12,
      allActiveSolutionsList = JArr [JObj [(''id'', JNum 2), (''countries'', JArr [JNum 7])]]\<rparr>"

section \<open>Facts about the array methods and the lookups\<close>

lemma str_eq_iff [simp]: "(str a = str b) = (a = b)"
  by (simp add: str_def inj_map_eq_map inj_of_char)

lemma get_prop_error: "get_prop v k = Inl e \<Longrightarrow> e = TypeError"
  by (cases v) auto

lemma get_prop_obj: "is_obj v \<Longrightarrow> get_prop v k = Inr (field v k)"
  by (cases v) (auto simp: field_def)

lemma map_result_error:
  assumes "\<And>x e. f x = Inl e \<Longrightarrow> e = TypeError"
  shows "map_result f xs = Inl e \<Longrightarrow> e = TypeError"
  using assms by (induction xs arbitrary: e) (auto split: sum.splits)

lemma map_result_fails:
  "x \<in> set xs \<Longrightarrow> f x = Inl e \<Longrightarrow> \<exists>e'. map_result f xs = Inl e'"
  by (induction xs) (auto split: sum.splits)

lemma map_result_rel:
  "\<forall>x\<in>set xs. \<exists>y. f x = Inr y \<and> Q x y \<Longrightarrow>
     \<exists>ys. map_result f xs = Inr ys \<and> list_all2 Q xs ys"
  by (induction xs) (auto split: sum.splits)

lemma find_result_error:
  assumes "\<And>x e. p x = Inl e \<Longrightarrow> e = TypeError"
  shows "find_result p xs = Inl e \<Longrightarrow> e = TypeError"
  using assms by (induction xs arbitrary: e) (auto split: sum.splits if_splits)

lemma find_result_none:
  "\<forall>x\<in>set xs. p x \<noteq> Inr True \<Longrightarrow>
     find_result p xs = Inr JUndefined \<or> (\<exists>e. find_result p xs = Inl e)"
  by (induction xs) (auto split: sum.splits)

lemma find_result_total:
  "\<forall>x\<in>set xs. p x = Inr (P x) \<Longrightarrow>
     find_result p xs = Inr (case find P xs of None \<Rightarrow> JUndefined | Some x \<Rightarrow> x)"
  by (induction xs) auto

lemma filter_result_total:
  "\<forall>x\<in>set xs. p x = Inr (P x) \<Longrightarrow> filter_result p xs = Inr (filter P xs)"
  by (induction xs) auto

lemma array_find_error:
  assumes "\<And>x e. p x = Inl e \<Longrightarrow> e = TypeError"
  shows "array_find p v = Inl e \<Longrightarrow> e = TypeError"
  using find_result_error [of p, OF assms] by (cases v) auto

lemma array_find_none:
  "\<forall>x\<in>set (elements v). p x \<noteq> Inr True \<Longrightarrow>
     array_find p v = Inr JUndefined \<or> (\<exists>e. array_find p v = Inl e)"
  using find_result_none [of _ p] by (cases v) auto

lemma same_id_error: "same_id sol a = Inl e \<Longrightarrow> e = TypeError"
  by (auto simp: same_id_def split: sum.splits dest: get_prop_error)

lemma same_id_True: "same_id sol a = Inr True \<Longrightarrow> has_id_of sol a"
  by (auto simp: same_id_def has_id_of_def has_prop_def field_def split: sum.splits)

lemma prop_is_error: "prop_is k w p = Inl e \<Longrightarrow> e = TypeError"
  by (auto simp: prop_is_def split: sum.splits dest: get_prop_error)

lemma prop_is_True: "prop_is k w p = Inr True \<Longrightarrow> has_prop k w p"
  by (auto simp: prop_is_def has_prop_def field_def split: sum.splits)

lemma with_countries_error:
  assumes "with_countries s x = Inl e"
  shows "e = TypeError"
proof (cases "array_find (same_id x) (allActiveSolutionsList s)")
  case (Inl e')
  then have "e' = TypeError"
    using array_find_error [of "same_id x"] same_id_error by blast
  with Inl assms show ?thesis
    by (simp add: with_countries_def)
next
  case (Inr found)
  with assms show ?thesis
    by (auto simp: with_countries_def split: sum.splits dest: get_prop_error)
qed

lemma with_countries_unmatched:
  assumes "\<forall>a\<in>set (elements (allActiveSolutionsList s)). \<not> has_id_of sol a"
  shows "with_countries s sol = Inl TypeError"
proof -
  have "\<forall>a\<in>set (elements (allActiveSolutionsList s)). same_id sol a \<noteq> Inr True"
    using assms same_id_True by blast
  then have "array_find (same_id sol) (allActiveSolutionsList s) = Inr JUndefined
      \<or> (\<exists>e. array_find (same_id sol) (allActiveSolutionsList s) = Inl e)"
    by (rule array_find_none)
  then have "\<exists>e. with_countries s sol = Inl e"
    by (auto simp: with_countries_def)
  then show ?thesis
    using with_countries_error by blast
qed

lemma lookup_unmatched:
  assumes "\<forall>p\<in>set (elements profiles). \<not> has_prop k w p"
  shows "(case array_find (prop_is k w) profiles of
            Inl e \<Rightarrow> Inl e
          | Inr profile \<Rightarrow> get_prop profile k') = Inl TypeError"
proof -
  have "\<forall>p\<in>set (elements profiles). prop_is k w p \<noteq> Inr True"
    using assms prop_is_True by blast
  then have "array_find (prop_is k w) profiles = Inr JUndefined
      \<or> (\<exists>e. array_find (prop_is k w) profiles = Inl e)"
    by (rule array_find_none)
  then show ?thesis
  proof
    assume "array_find (prop_is k w) profiles = Inr JUndefined"
    then show ?thesis by simp
  next
    assume "\<exists>e. array_find (prop_is k w) profiles = Inl e"
    then obtain e where e: "array_find (prop_is k w) profiles = Inl e" ..
    have "e = TypeError"
      by (rule array_find_error [OF _ e]) (rule prop_is_error)
    with e show ?thesis by simp
  qed
qed

lemma lookup_error:
  assumes "(case array_find (prop_is k w) profiles of
              Inl e \<Rightarrow> Inl e
            | Inr profile \<Rightarrow> get_prop profile k') = Inl e"
  shows "e = TypeError"
proof (cases "array_find (prop_is k w) profiles")
  case (Inl e')
  have "e' = TypeError"
    by (rule array_find_error [OF _ Inl]) (rule prop_is_error)
  with Inl assms show ?thesis by simp
next
  case (Inr profile)
  with assms show ?thesis by (auto dest: get_prop_error)
qed

lemma map_lookup_unmatched:
  assumes "w \<in> set ws"
    and "\<forall>p\<in>set (elements profiles). \<not> has_prop k w p"
  shows "map_result
           (\<lambda>w. case array_find (prop_is k w) profiles of
                   Inl e \<Rightarrow> Inl e
                 | Inr profile \<Rightarrow> get_prop profile k') ws = Inl TypeError"
    (is "map_result ?f ws = _")
proof -
  have "?f w = Inl TypeError"
    using assms(2) by (rule lookup_unmatched)
  with assms(1) obtain e where e: "map_result ?f ws = Inl e"
    using map_result_fails [of w ws ?f TypeError] by auto
  have "e = TypeError"
    by (rule map_result_error [OF _ e]) (rule lookup_error)
  with e show ?thesis by simp
qed

lemma prop_is_obj: "is_obj p \<Longrightarrow> prop_is k w p = Inr (has_prop k w p)"
  by (simp add: prop_is_def has_prop_def get_prop_obj)

lemma strict_eq_eq: "strict_eq a b \<Longrightarrow> a = b"
  by (cases a) auto

lemma map_result_back:
  "list_all2 R xs ys \<Longrightarrow> (\<And>x y. R x y \<Longrightarrow> f y = Inr x) \<Longrightarrow> map_result f ys = Inr xs"
  by (induction rule: list_all2_induct) auto

lemma find_SomeD: "find P xs = Some x \<Longrightarrow> x \<in> set xs \<and> P x"
  by (induction xs) (auto split: if_splits)

lemma find_some:
  "x \<in> set xs \<Longrightarrow> P x \<Longrightarrow> \<exists>y. find P xs = Some y \<and> y \<in> set xs \<and> P y"
  by (cases "find P xs") (auto simp: find_None_iff dest: find_SomeD)

lemma same_id_obj:
  "is_obj sol \<Longrightarrow> is_obj a \<Longrightarrow> same_id sol a = Inr (has_id_of sol a)"
  by (simp add: same_id_def has_id_of_def has_prop_def get_prop_obj)

lemma field_update:
  "field (JObj (AList.update k v fs)) k' = (if k' = k then v else field (JObj fs) k')"
  by (simp add: field_def update_conv')

lemma with_countries_matched:
  assumes "is_obj sol" and "list_all is_obj acts" and "allActiveSolutionsList s = JArr acts"
    and "find (has_id_of sol) acts = Some a"
  shows "with_countries s sol =
           Inr (JObj (AList.update ''countries'' (field a ''countries'') (spread sol)))"
proof -
  have "\<forall>x\<in>set acts. same_id sol x = Inr (has_id_of sol x)"
    using assms(1,2) by (simp add: list_all_iff same_id_obj)
  then have "find_result (same_id sol) acts =
      Inr (case find (has_id_of sol) acts of None \<Rightarrow> JUndefined | Some x \<Rightarrow> x)"
    by (rule find_result_total)
  then have found: "array_find (same_id sol) (allActiveSolutionsList s) = Inr a"
    using assms(3,4) by simp
  have "a \<in> set acts"
    using find_SomeD [OF assms(4)] by simp
  then have "is_obj a"
    using assms(2) by (simp add: list_all_iff)
  then show ?thesis
    using found by (simp add: with_countries_def get_prop_obj)
qed

lemma lookup_found:
  assumes "list_all is_obj ps" and "find (has_prop k w) ps = Some p"
  shows "(case array_find (prop_is k w) (JArr ps) of
            Inl e \<Rightarrow> Inl e
          | Inr profile \<Rightarrow> get_prop profile k') = Inr (field p k')"
proof -
  have "\<forall>x\<in>set ps. prop_is k w x = Inr (has_prop k w x)"
    using assms(1) by (simp add: list_all_iff prop_is_obj)
  then have "find_result (prop_is k w) ps =
      Inr (case find (has_prop k w) ps of None \<Rightarrow> JUndefined | Some x \<Rightarrow> x)"
    by (rule find_result_total)
  moreover have "p \<in> set ps"
    using find_SomeD [OF assms(2)] by simp
  then have "is_obj p"
    using assms(1) by (simp add: list_all_iff)
  ultimately show ?thesis
    using assms(2) by (simp add: get_prop_obj)
qed

lemma labels_identifyD:
  "labels_identify ps \<Longrightarrow> p \<in> set ps \<Longrightarrow> q \<in> set ps \<Longrightarrow>
     field p ''label'' = field q ''label'' \<Longrightarrow> field p ''id'' = field q ''id''"
  unfolding labels_identify_def list_all_iff by blast

lemma has_prop_self: "is_str (field p k) \<Longrightarrow> has_prop k (field p k) p"
  by (cases "field p k") (auto simp: has_prop_def)

subsection \<open>The filter\<close>

lemma startsWith_Nil [simp]: "startsWith s [] = True"
  by (simp add: startsWith_def)

lemma startsWith_of_Nil [simp]: "startsWith [] q = (q = [])"
  by (auto simp: startsWith_def)

lemma lowered_Nil [simp]: "lowered engine [] = []"
  by (simp add: lowered_def is_ascii_def)

lemma lowered_ascii: "is_ascii s \<Longrightarrow> lowered engine s = map ascii_lower s"
  by (simp add: lowered_def)

lemma filter_fn_str:
  "filter_fn engine (JStr s) (JStr q) = Inr (lower_prefix_of engine q (JStr s))"
  by (simp add: filter_fn_def)

lemma ci_prefix_iff:
  "ci_prefix q s = (\<exists>u t. s = u @ t \<and> map ascii_lower u = map ascii_lower q)"
proof
  assume "ci_prefix q s"
  then have "map ascii_lower (take (length q) s) = map ascii_lower q"
    by (simp add: ci_prefix_def)
  moreover have "s = take (length q) s @ drop (length q) s"
    by simp
  ultimately show "\<exists>u t. s = u @ t \<and> map ascii_lower u = map ascii_lower q"
    by blast
next
  assume "\<exists>u t. s = u @ t \<and> map ascii_lower u = map ascii_lower q"
  then obtain u t where s: "s = u @ t" and eq: "map ascii_lower u = map ascii_lower q"
    by blast
  from eq have "length u = length q"
    by (rule map_eq_imp_length_eq)
  then have "take (length q) s = u"
    using s by simp
  with eq show "ci_prefix q s"
    by (simp add: ci_prefix_def)
qed

lemma ascii_prefix:
  assumes "is_ascii q" and "is_ascii s"
  shows "startsWith (lowered engine s) (lowered engine q) = ci_prefix q s"
proof -
  have "startsWith (lowered engine s) (lowered engine q)
      = (take (length q) (map ascii_lower s) = map ascii_lower q)"
    using assms by (simp add: lowered_ascii startsWith_def)
  then show ?thesis
    by (simp add: ci_prefix_def take_map)
qed

lemma option_matches_wf:
  assumes "wf_profile p"
  shows "option_matches engine (JStr q) p = Inr (matches_query engine q p)"
proof -
  from assms have obj: "is_obj p"
    and n: "text_or_missing (field p ''name'')"
    and e: "text_or_missing (field p ''email'')"
    and some: "truthy (field p ''name'') \<or> is_str (field p ''email'')"
    by (simp_all add: wf_profile_def)
  have gn: "get_prop p ''name'' = Inr (field p ''name'')"
    and ge: "get_prop p ''email'' = Inr (field p ''email'')"
    using obj by (simp_all add: get_prop_obj)
  show ?thesis
  proof (cases "truthy (field p ''name'')")
    case True
    with n obtain nm where nm: "field p ''name'' = JStr nm"
      by (cases "field p ''name''") auto
    show ?thesis
    proof (cases "truthy (field p ''email'')")
      case True
      with e obtain em where "field p ''email'' = JStr em"
        by (cases "field p ''email''") auto
      with nm True \<open>truthy (field p ''name'')\<close> show ?thesis
        by (simp add: option_matches_def gn ge filter_fn_str matches_query_def)
    next
      case False
      with e have "lower_prefix_of engine q (field p ''email'')
          \<longrightarrow> lower_prefix_of engine q (field p ''name'')"
        unfolding nm by (cases "field p ''email''") auto
      with False nm \<open>truthy (field p ''name'')\<close> show ?thesis
        by (auto simp: option_matches_def gn ge filter_fn_str matches_query_def)
    qed
  next
    case False
    from False some obtain em where em: "field p ''email'' = JStr em"
      by (cases "field p ''email''") auto
    from False n have "lower_prefix_of engine q (field p ''name'')
        \<longrightarrow> lower_prefix_of engine q (field p ''email'')"
      unfolding em by (cases "field p ''name''") auto
    with False em show ?thesis
      by (auto simp: option_matches_def gn ge filter_fn_str matches_query_def)
  qed
qed

lemma filterMethod_wf:
  assumes "userProfiles c = JArr ps" and "list_all wf_profile ps" and "q \<noteq> []"
  shows "filterMethod engine c (JStr q) =
           Inr (c\<lparr>filteredOptions := JArr (filter (matches_query engine q) ps)\<rparr>)"
proof -
  have "\<forall>p\<in>set ps. option_matches engine (JStr q) p = Inr (matches_query engine q p)"
    using assms(2) by (simp add: list_all_iff option_matches_wf)
  then have "filter_result (option_matches engine (JStr q)) ps
      = Inr (filter (matches_query engine q) ps)"
    by (rule filter_result_total)
  with assms(1,3) show ?thesis
    by (simp add: filterMethod_def)
qed

lemma matches_query_iff:
  "matches_query engine q p =
     (\<exists>s. (field p ''name'' = JStr s \<or> field p ''email'' = JStr s)
        \<and> startsWith (lowered engine s) (lowered engine q))"
proof -
  have "lower_prefix_of engine q v
      = (\<exists>s. v = JStr s \<and> startsWith (lowered engine s) (lowered engine q))" for v
    by (cases v) simp_all
  then show ?thesis
    unfolding matches_query_def by blast
qed

section \<open>Frame of the mutations\<close>

text \<open>
  Claim C9. Each mutation writes exactly one field of the state and leaves the other as
  it was: \<open>PUT_SOLUTION_LIST\<close> stores its payload in \<open>allSolutionsList\<close> and does not
  touch \<open>allActiveSolutionsList\<close>; \<open>PUT_ALL_ACTIVE_SOLUTIONS_LIST\<close> stores its payload in
  \<open>allActiveSolutionsList\<close> and does not touch \<open>allSolutionsList\<close>. The same holds for
  the two actions that commit them, whatever the network answers.
\<close>

theorem mutations_write_one_field:
  "allSolutionsList (PUT_SOLUTION_LIST s d) = d
   \<and> allActiveSolutionsList (PUT_SOLUTION_LIST s d) = allActiveSolutionsList s
   \<and> allActiveSolutionsList (PUT_ALL_ACTIVE_SOLUTIONS_LIST s d) = d
   \<and> allSolutionsList (PUT_ALL_ACTIVE_SOLUTIONS_LIST s d) = allSolutionsList s
   \<and> allActiveSolutionsList (after (loadSolutionsList net s pid)) = allActiveSolutionsList s
   \<and> allSolutionsList (after (loadAllActiveSolutionsList net s)) = allSolutionsList s"
  by (simp add: PUT_SOLUTION_LIST_def PUT_ALL_ACTIVE_SOLUTIONS_LIST_def loadSolutionsList_def
      loadAllActiveSolutionsList_def Let_def split: sum.split)

theorem mutations_write_one_field_witness:
  "allSolutionsList (PUT_SOLUTION_LIST cleanState (JNum 1)) = JNum 1
   \<and> allActiveSolutionsList (PUT_SOLUTION_LIST cleanState (JNum 1)) = JArr []
   \<and> allActiveSolutionsList (PUT_ALL_ACTIVE_SOLUTIONS_LIST cleanState (JNum 1)) = JNum 1
   \<and> allSolutionsList (PUT_ALL_ACTIVE_SOLUTIONS_LIST cleanState (JNum 1)) = JObj []
   \<and> allActiveSolutionsList (after (loadSolutionsList (\<lambda>r. Inr JNull) cleanState (JNum 7)))
       = JArr []
   \<and> allSolutionsList (after (loadAllActiveSolutionsList (\<lambda>r. Inr JNull) cleanState)) = JObj []"
  using mutations_write_one_field [of cleanState "JNum 1" "\<lambda>r. Inr JNull" "JNum 7"]
  by (simp add: cleanState_def)

section \<open>The clean state\<close>

text \<open>
  Claim C10. In the clean state \<open>allSolutionsList\<close> is the empty object, so
  \<open>getSolutionsList\<close> returns \<open>undefined\<close> and \<open>getSolutionsListWithCountries\<close> throws a
  TypeError. It still throws after \<open>loadAllActiveSolutionsList\<close> has run, whatever that
  load stored: the merged getter is unsafe until \<open>loadSolutionsList\<close> has succeeded.
\<close>

theorem clean_state_getter_throws:
  "allSolutionsList cleanState = JObj []
   \<and> state = cleanState
   \<and> getSolutionsList cleanState = Inr JUndefined
   \<and> getSolutionsListWithCountries cleanState = Inl TypeError
   \<and> getSolutionsListWithCountries (PUT_ALL_ACTIVE_SOLUTIONS_LIST cleanState d) = Inl TypeError
   \<and> getSolutionsListWithCountries (after (loadAllActiveSolutionsList net cleanState))
       = Inl TypeError"
  by (simp add: cleanState_def state_def getSolutionsList_def getSolutionsListWithCountries_def
      PUT_ALL_ACTIVE_SOLUTIONS_LIST_def loadAllActiveSolutionsList_def Let_def split: sum.split)

section \<open>Loading the solutions of a portfolio\<close>

text \<open>
  Claim C3. For every portfolio id, \<open>loadSolutionsList\<close> issues one GET, to
  \<open>/api/portfolio/\<close> followed by the id; when the request succeeds with body \<open>d\<close>,
  \<open>allSolutionsList\<close> becomes \<open>d\<close> itself, nothing else in the store changes, and \<open>d\<close> is
  what the action returns.
\<close>

theorem loadSolutionsList_success:
  assumes "net (GET (str ''/api/portfolio/'' @ to_string pid)) = Inr d"
  shows "loadSolutionsList net s pid =
           \<lparr>issued = [GET (str ''/api/portfolio/'' @ to_string pid)],
            returned = Inr d,
            after = s\<lparr>allSolutionsList := d\<rparr>\<rparr>"
  using assms by (simp add: loadSolutionsList_def PUT_SOLUTION_LIST_def)

theorem loadSolutionsList_success_witness:
  "backend (GET (str ''/api/portfolio/'' @ to_string (JNum 12))) = Inr portfolio12
   \<and> loadSolutionsList backend cleanState (JNum 12) =
       \<lparr>issued = [GET (str ''/api/portfolio/12'')],
        returned = Inr portfolio12,
        after = \<lparr>allSolutionsList = portfolio12, allActiveSolutionsList = JArr []\<rparr>\<rparr>"
proof -
  have url: "str ''/api/portfolio/'' @ to_string (JNum 12) = str ''/api/portfolio/12''"
    by code_simp
  have ok: "backend (GET (str ''/api/portfolio/'' @ to_string (JNum 12))) = Inr portfolio12"
    unfolding url by (simp add: backend_def)
  show ?thesis
    using ok loadSolutionsList_success [of backend "JNum 12" portfolio12 cleanState]
    unfolding url by (simp add: cleanState_def)
qed

section \<open>Loading the active solutions\<close>

text \<open>
  Claim C7. \<open>loadAllActiveSolutionsList\<close> issues one GET, and whatever the base URL of
  the client is, the request goes to the base URL followed by \<open>/api/solution\<close>: the
  address the action asks for, \<open>api/solution\<close>, is sent to the same place as
  \<open>/api/solution\<close>. When the request succeeds, \<open>allActiveSolutionsList\<close> is replaced
  wholesale by the body of the response, which the action returns.
\<close>

theorem loadAllActiveSolutionsList_request:
  "map (sent_to base) (issued (loadAllActiveSolutionsList net s))
     = [rev (dropWhile (\<lambda>u. u = 47) (rev base)) @ str ''/api/solution'']
   \<and> map (sent_to base) (issued (loadAllActiveSolutionsList net s))
     = [sent_to base (GET (str ''/api/solution''))]
   \<and> (\<forall>d. net (GET (str ''api/solution'')) = Inr d \<longrightarrow>
          after (loadAllActiveSolutionsList net s) = s\<lparr>allActiveSolutionsList := d\<rparr>
          \<and> returned (loadAllActiveSolutionsList net s) = Inr d)"
proof -
  have issued: "issued (loadAllActiveSolutionsList net s) = [GET (str ''api/solution'')]"
    by (simp add: loadAllActiveSolutionsList_def Let_def split: sum.split)
  have ne: "str ''api/solution'' \<noteq> []" "str ''/api/solution'' \<noteq> []"
    by (simp_all add: str_def)
  have tail: "[47] @ dropWhile (\<lambda>u. u = 47) (str ''api/solution'') = str ''/api/solution''"
    "[47] @ dropWhile (\<lambda>u. u = 47) (str ''/api/solution'') = str ''/api/solution''"
    by code_simp+
  have "sent_to base (GET (str ''api/solution''))
      = rev (dropWhile (\<lambda>u. u = 47) (rev base))
        @ ([47] @ dropWhile (\<lambda>u. u = 47) (str ''api/solution''))"
    using ne(1) by (simp add: combineURLs_def del: dropWhile_eq_self_iff)
  then have one: "sent_to base (GET (str ''api/solution''))
      = rev (dropWhile (\<lambda>u. u = 47) (rev base)) @ str ''/api/solution''"
    unfolding tail .
  have "sent_to base (GET (str ''/api/solution''))
      = rev (dropWhile (\<lambda>u. u = 47) (rev base))
        @ ([47] @ dropWhile (\<lambda>u. u = 47) (str ''/api/solution''))"
    using ne(2) by (simp add: combineURLs_def del: dropWhile_eq_self_iff)
  then have two: "sent_to base (GET (str ''/api/solution''))
      = rev (dropWhile (\<lambda>u. u = 47) (rev base)) @ str ''/api/solution''"
    unfolding tail .
  show ?thesis
    unfolding issued using one two
    by (simp add: loadAllActiveSolutionsList_def PUT_ALL_ACTIVE_SOLUTIONS_LIST_def Let_def
        split: sum.split)
qed

theorem loadAllActiveSolutionsList_request_witness:
  "map (sent_to (str ''http://localhost:3000/'')) (issued (loadAllActiveSolutionsList backend cleanState))
     = [str ''http://localhost:3000/api/solution'']
   \<and> backend (GET (str ''api/solution'')) = Inr active_solutions
   \<and> after (loadAllActiveSolutionsList backend cleanState)
       = \<lparr>allSolutionsList = JObj [], allActiveSolutionsList = active_solutions\<rparr>
   \<and> returned (loadAllActiveSolutionsList backend cleanState) = Inr active_solutions"
proof -
  have base: "rev (dropWhile (\<lambda>u. u = 47) (rev (str ''http://localhost:3000/'')))
      @ str ''/api/solution'' = str ''http://localhost:3000/api/solution''"
    by code_simp
  have ok: "backend (GET (str ''api/solution'')) = Inr active_solutions"
    by (simp add: backend_def)
  show ?thesis
    using ok loadAllActiveSolutionsList_request [of "str ''http://localhost:3000/''" backend cleanState]
    unfolding base by (simp add: cleanState_def)
qed

section \<open>A solution that is not among the active ones\<close>

text \<open>
  Claim C2. When some solution of \<open>allSolutionsList.solutions\<close> has an id that no element
  of \<open>allActiveSolutionsList\<close> has, evaluating \<open>getSolutionsListWithCountries\<close> throws a
  TypeError: it neither skips the solution nor returns part of the list. The store is
  what it was before the evaluation.
\<close>

theorem unmatched_solution_throws:
  assumes "getSolutionsList s = Inr (JArr sols)"
    and "sol \<in> set sols"
    and "list_all (\<lambda>a. \<not> has_id_of sol a) (elements (allActiveSolutionsList s))"
  shows "evaluate getSolutionsListWithCountries s = (Inl TypeError, s)"
proof -
  have "\<forall>a\<in>set (elements (allActiveSolutionsList s)). \<not> has_id_of sol a"
    using assms(3) by (simp add: list_all_iff)
  then have "with_countries s sol = Inl TypeError"
    by (rule with_countries_unmatched)
  with assms(2) obtain e where e: "map_result (with_countries s) sols = Inl e"
    using map_result_fails [of sol sols "with_countries s" TypeError] by auto
  have "e = TypeError"
    by (rule map_result_error [OF _ e]) (rule with_countries_error)
  with e assms(1) show ?thesis
    by (simp add: evaluate_def getSolutionsListWithCountries_def getSolutionsList_def)
qed

theorem unmatched_solution_throws_witness:
  "getSolutionsList stale_store =
     Inr (JArr [JObj [(''id'', JNum 1), (''name'', JStr (str ''Drones''))],
                JObj [(''id'', JNum 2), (''countries'', JArr []), (''name'', JStr (str ''Maps''))]])
   \<and> list_all (\<lambda>a. \<not> has_id_of (JObj [(''id'', JNum 1), (''name'', JStr (str ''Drones''))]) a)
        (elements (allActiveSolutionsList stale_store))
   \<and> evaluate getSolutionsListWithCountries stale_store = (Inl TypeError, stale_store)"
proof -
  have sols: "getSolutionsList stale_store =
     Inr (JArr [JObj [(''id'', JNum 1), (''name'', JStr (str ''Drones''))],
                JObj [(''id'', JNum 2), (''countries'', JArr []), (''name'', JStr (str ''Maps''))]])"
    by (simp add: getSolutionsList_def stale_store_def portfolio12_def)
  have none: "list_all (\<lambda>a. \<not> has_id_of (JObj [(''id'', JNum 1), (''name'', JStr (str ''Drones''))]) a)
        (elements (allActiveSolutionsList stale_store))"
    by (simp add: stale_store_def has_id_of_def has_prop_def field_def)
  show ?thesis
    using sols none unmatched_solution_throws [OF sols _ none] by simp
qed

section \<open>An id or a label that no profile has\<close>

text \<open>
  Claim C8. When the \<open>value\<close> of the TeamSelector contains an id that no profile of the
  profile list has, the display direction (\<open>innerValue\<close> get) throws a TypeError; when a
  chosen label is the label of no profile, the edit direction (\<open>innerValue\<close> set) throws
  in the same way and emits nothing. The mechanism: on a list of records the linear
  search finds nothing and returns \<open>undefined\<close>, and reading \<open>.label\<close> or \<open>.id\<close> of
  \<open>undefined\<close> throws.
\<close>

theorem missing_profile_throws:
  "(value_prop c = JArr ids
      \<and> list_ex (\<lambda>i. list_all (\<lambda>p. \<not> has_prop ''id'' i p) (elements (userProfiles c))) ids
      \<longrightarrow> innerValue_get c = Inl TypeError)
   \<and> (list_ex (\<lambda>l. list_all (\<lambda>p. \<not> has_prop ''label'' l p) (elements (userProfiles c))) labels
      \<longrightarrow> innerValue_set c (JArr labels) = Inl TypeError)
   \<and> (list_all is_obj ps \<and> list_all (\<lambda>p. \<not> has_prop k w p) ps
      \<longrightarrow> array_find (prop_is k w) (JArr ps) = Inr JUndefined)
   \<and> get_prop JUndefined ''label'' = Inl TypeError
   \<and> get_prop JUndefined ''id'' = Inl TypeError"
proof (intro conjI impI)
  assume "value_prop c = JArr ids
      \<and> list_ex (\<lambda>i. list_all (\<lambda>p. \<not> has_prop ''id'' i p) (elements (userProfiles c))) ids"
  then obtain i where v: "value_prop c = JArr ids" and i: "i \<in> set ids"
    and "\<forall>p\<in>set (elements (userProfiles c)). \<not> has_prop ''id'' i p"
    by (auto simp: list_ex_iff list_all_iff)
  then show "innerValue_get c = Inl TypeError"
    using map_lookup_unmatched [of i ids "userProfiles c" "''id''" "''label''"]
    by (simp add: innerValue_get_def)
next
  assume "list_ex (\<lambda>l. list_all (\<lambda>p. \<not> has_prop ''label'' l p) (elements (userProfiles c))) labels"
  then obtain l where "l \<in> set labels"
    and "\<forall>p\<in>set (elements (userProfiles c)). \<not> has_prop ''label'' l p"
    by (auto simp: list_ex_iff list_all_iff)
  then show "innerValue_set c (JArr labels) = Inl TypeError"
    using map_lookup_unmatched [of l labels "userProfiles c" "''label''" "''id''"]
    by (simp add: innerValue_set_def)
next
  assume "list_all is_obj ps \<and> list_all (\<lambda>p. \<not> has_prop k w p) ps"
  then have "\<forall>p\<in>set ps. prop_is k w p = Inr (has_prop k w p)"
    and none: "\<forall>p\<in>set ps. \<not> has_prop k w p"
    by (auto simp: list_all_iff prop_is_obj)
  then have "find_result (prop_is k w) ps =
      Inr (case find (has_prop k w) ps of None \<Rightarrow> JUndefined | Some x \<Rightarrow> x)"
    by (intro find_result_total)
  moreover have "find (has_prop k w) ps = None"
    using none by (simp add: find_None_iff)
  ultimately show "array_find (prop_is k w) (JArr ps) = Inr JUndefined"
    by simp
qed simp_all

theorem missing_profile_throws_witness:
  "value_prop (data (JArr [JNum 1, JNum 9]) team) = JArr [JNum 1, JNum 9]
   \<and> list_ex (\<lambda>i. list_all (\<lambda>p. \<not> has_prop ''id'' i p) (elements team)) [JNum 1, JNum 9]
   \<and> innerValue_get (data (JArr [JNum 1, JNum 9]) team) = Inl TypeError
   \<and> list_ex (\<lambda>l. list_all (\<lambda>p. \<not> has_prop ''label'' l p) (elements team))
        [JStr (str ''Alice''), JStr (str ''Carol'')]
   \<and> innerValue_set (data (JArr [JNum 1, JNum 9]) team) (JArr [JStr (str ''Alice''), JStr (str ''Carol'')])
       = Inl TypeError
   \<and> list_all is_obj (elements team)
   \<and> list_all (\<lambda>p. \<not> has_prop ''id'' (JNum 9) p) (elements team)
   \<and> array_find (prop_is ''id'' (JNum 9)) (JArr (elements team)) = Inr JUndefined"
  using missing_profile_throws [of "data (JArr [JNum 1, JNum 9]) team" "[JNum 1, JNum 9]"
      "[JStr (str ''Alice''), JStr (str ''Carol'')]" "elements team" "''id''" "JNum 9"]
  by (simp add: data_def team_def has_prop_def field_def)

section \<open>The solutions of a portfolio with their countries\<close>

text \<open>
  Claim C1. Take a store whose \<open>allSolutionsList.solutions\<close> and
  \<open>allActiveSolutionsList\<close> are lists of records, every solution's id being the id of
  some active solution. Then \<open>getSolutionsListWithCountries\<close> returns a list with one
  record per solution, in the same order; the \<open>countries\<close> of the record at position \<open>i\<close>
  is the \<open>countries\<close> of the first active solution with the id of solution \<open>i\<close>, and
  every other field of the record is that field of solution \<open>i\<close>.
\<close>

theorem merged_list_correct:
  assumes "getSolutionsList s = Inr (JArr sols)"
    and "allActiveSolutionsList s = JArr acts"
    and "list_all is_obj sols"
    and "list_all is_obj acts"
    and "list_all (\<lambda>sol. list_ex (has_id_of sol) acts) sols"
  shows "\<exists>rs. getSolutionsListWithCountries s = Inr (JArr rs)
           \<and> length rs = length sols
           \<and> (\<forall>i<length sols. \<exists>a.
                 find (has_id_of (sols ! i)) acts = Some a
                 \<and> is_obj (rs ! i)
                 \<and> field (rs ! i) ''countries'' = field a ''countries''
                 \<and> (\<forall>k. k \<noteq> ''countries'' \<longrightarrow> field (rs ! i) k = field (sols ! i) k))"
proof -
  let ?Q = "\<lambda>sol r. \<exists>a. find (has_id_of sol) acts = Some a
              \<and> r = JObj (AList.update ''countries'' (field a ''countries'') (spread sol))"
  have "\<forall>sol\<in>set sols. \<exists>r. with_countries s sol = Inr r \<and> ?Q sol r"
  proof
    fix sol assume sol: "sol \<in> set sols"
    then have obj: "is_obj sol"
      using assms(3) by (simp add: list_all_iff)
    from sol assms(5) have "\<exists>a\<in>set acts. has_id_of sol a"
      by (simp add: list_all_iff list_ex_iff)
    then obtain a where a: "find (has_id_of sol) acts = Some a"
      by (cases "find (has_id_of sol) acts") (auto simp: find_None_iff)
    show "\<exists>r. with_countries s sol = Inr r \<and> ?Q sol r"
      using with_countries_matched [OF obj assms(4) assms(2) a] a by simp
  qed
  then obtain rs where rs: "map_result (with_countries s) sols = Inr rs"
    and rel: "list_all2 ?Q sols rs"
    using map_result_rel [of sols "with_countries s" ?Q] by blast
  have len: "length rs = length sols"
    using rel by (simp add: list_all2_lengthD)
  have "\<exists>a. find (has_id_of (sols ! i)) acts = Some a
          \<and> is_obj (rs ! i)
          \<and> field (rs ! i) ''countries'' = field a ''countries''
          \<and> (\<forall>k. k \<noteq> ''countries'' \<longrightarrow> field (rs ! i) k = field (sols ! i) k)"
    if i: "i < length sols" for i
  proof -
    from rel i obtain a where a: "find (has_id_of (sols ! i)) acts = Some a"
      and r: "rs ! i = JObj (AList.update ''countries'' (field a ''countries'') (spread (sols ! i)))"
      by (auto simp: list_all2_conv_all_nth)
    have "is_obj (sols ! i)"
      using assms(3) i by (simp add: list_all_length)
    then obtain fs where fs: "sols ! i = JObj fs"
      by (cases "sols ! i") auto
    show ?thesis
      using a r fs by (simp add: field_update)
  qed
  with rs len assms(1) show ?thesis
    by (simp add: getSolutionsListWithCountries_def getSolutionsList_def)
qed

theorem merged_list_correct_witness:
  "getSolutionsList \<lparr>allSolutionsList = portfolio12, allActiveSolutionsList = active_solutions\<rparr>
     = Inr (JArr (elements (field portfolio12 ''solutions'')))
   \<and> list_all is_obj (elements (field portfolio12 ''solutions''))
   \<and> list_all is_obj (elements active_solutions)
   \<and> list_all (\<lambda>sol. list_ex (has_id_of sol) (elements active_solutions))
        (elements (field portfolio12 ''solutions''))
   \<and> getSolutionsListWithCountries
        \<lparr>allSolutionsList = portfolio12, allActiveSolutionsList = active_solutions\<rparr>
       = Inr (JArr
           [JObj [(''id'', JNum 1), (''name'', JStr (str ''Drones'')),
                  (''countries'', JArr [JNum 9, JNum 4])],
            JObj [(''id'', JNum 2), (''countries'', JArr [JNum 7]), (''name'', JStr (str ''Maps''))]])"
  using merged_list_correct [of "\<lparr>allSolutionsList = portfolio12, allActiveSolutionsList = active_solutions\<rparr>"
      "elements (field portfolio12 ''solutions'')" "elements active_solutions"]
  by (simp add: getSolutionsList_def getSolutionsListWithCountries_def with_countries_def
      same_id_def portfolio12_def active_solutions_def field_def has_id_of_def has_prop_def)

section \<open>From ids to labels and back\<close>

text \<open>
  Claim C4, as stated, fails: translating ids to labels and the labels back returns the
  id of the first profile that carries the label, which is another id when two users
  share a label. Here the profile list holds users 1 and 2, both labelled Sam; the id
  sequence [2] is shown as [Sam], and [Sam] is translated back to [1].
\<close>

theorem round_trip_counterexample:
  "list_ex (has_prop ''id'' (JNum 2)) (elements namesakes)
   \<and> innerValue_get (data (JArr [JNum 2]) namesakes) = Inr (JArr [JStr (str ''Sam'')])
   \<and> innerValue_set (data (JArr [JNum 2]) namesakes) (JArr [JStr (str ''Sam'')])
       = Inr (Emit ''change'' (JArr [JNum 1]))
   \<and> Emit ''change'' (JArr [JNum 1]) \<noteq> Emit ''change'' (JArr [JNum 2])"
  by (simp add: data_def namesakes_def has_prop_def field_def innerValue_get_def
      innerValue_set_def prop_is_def)

text \<open>
  Claim C4, amended. When the profiles are records with a string for a label and no two
  profiles with different ids carry the same label, then for every sequence of ids each
  of which occurs in the profile list, the display direction yields one label per id and
  the edit direction, applied to these labels, emits a \<open>change\<close> with the original id
  sequence, in the original order.
\<close>

theorem round_trip_with_distinct_labels:
  assumes "userProfiles c = JArr ps"
    and "value_prop c = JArr ids"
    and "list_all labelled ps"
    and "labels_identify ps"
    and "list_all (\<lambda>i. list_ex (has_prop ''id'' i) ps) ids"
  shows "\<exists>labels. innerValue_get c = Inr (JArr labels)
           \<and> length labels = length ids
           \<and> innerValue_set c (JArr labels) = Inr (Emit ''change'' (JArr ids))"
proof -
  define to_label where "to_label = (\<lambda>userId.
    case array_find (prop_is ''id'' userId) (JArr ps) of
      Inl e \<Rightarrow> Inl e | Inr profile \<Rightarrow> get_prop profile ''label'')"
  define to_id where "to_id = (\<lambda>label.
    case array_find (prop_is ''label'' label) (JArr ps) of
      Inl e \<Rightarrow> Inl e | Inr profile \<Rightarrow> get_prop profile ''id'')"
  define Q where "Q = (\<lambda>i l. \<exists>p. find (has_prop ''id'' i) ps = Some p \<and> l = field p ''label'')"
  have objs: "list_all is_obj ps"
    using assms(3) by (simp add: list_all_iff labelled_def)
  have "\<forall>i\<in>set ids. \<exists>l. to_label i = Inr l \<and> Q i l"
  proof
    fix i assume "i \<in> set ids"
    with assms(5) have "\<exists>p\<in>set ps. has_prop ''id'' i p"
      by (simp add: list_all_iff list_ex_iff)
    then obtain p0 where "p0 \<in> set ps" and "has_prop ''id'' i p0" ..
    then have "\<exists>y. find (has_prop ''id'' i) ps = Some y \<and> y \<in> set ps \<and> has_prop ''id'' i y"
      by (rule find_some)
    then obtain p where p: "find (has_prop ''id'' i) ps = Some p"
      by (elim exE conjE)
    have "to_label i = Inr (field p ''label'')"
      unfolding to_label_def using objs p by (rule lookup_found)
    with p show "\<exists>l. to_label i = Inr l \<and> Q i l"
      unfolding Q_def by (intro exI conjI) simp_all
  qed
  then have "\<exists>ys. map_result to_label ids = Inr ys \<and> list_all2 Q ids ys"
    by (rule map_result_rel)
  then obtain labels where labels: "map_result to_label ids = Inr labels"
    and rel: "list_all2 Q ids labels"
    by (elim exE conjE)
  have undo: "to_id l = Inr i" if "Q i l" for i l
  proof -
    from that obtain p where p: "find (has_prop ''id'' i) ps = Some p"
      and l: "l = field p ''label''"
      unfolding Q_def by (elim exE conjE)
    from p have pin: "p \<in> set ps" and "has_prop ''id'' i p"
      using find_SomeD [OF p] by simp_all
    then have pid: "field p ''id'' = i"
      by (simp add: has_prop_def strict_eq_eq)
    have "is_str (field p ''label'')"
      using pin assms(3) by (simp add: list_all_iff labelled_def)
    then have "has_prop ''label'' l p"
      unfolding l by (rule has_prop_self)
    with pin have "\<exists>y. find (has_prop ''label'' l) ps = Some y \<and> y \<in> set ps
        \<and> has_prop ''label'' l y"
      by (rule find_some)
    then obtain p' where p': "find (has_prop ''label'' l) ps = Some p'"
      and p'in: "p' \<in> set ps" and hl: "has_prop ''label'' l p'"
      by (elim exE conjE)
    from hl have "field p' ''label'' = field p ''label''"
      unfolding l has_prop_def by (rule strict_eq_eq)
    with assms(4) p'in pin have "field p' ''id'' = field p ''id''"
      by (rule labels_identifyD)
    moreover have "to_id l = Inr (field p' ''id'')"
      unfolding to_id_def using objs p' by (rule lookup_found)
    ultimately show ?thesis
      using pid by simp
  qed
  have "map_result to_id labels = Inr ids"
    using rel undo by (rule map_result_back)
  then have "array_map to_id (JArr labels) = Inr (JArr ids)"
    by simp
  then have emitted: "innerValue_set c (JArr labels) = Inr (Emit ''change'' (JArr ids))"
    unfolding innerValue_set_def to_id_def assms(1) by simp
  have "array_map to_label (JArr ids) = Inr (JArr labels)"
    using labels by simp
  then have shown: "innerValue_get c = Inr (JArr labels)"
    unfolding innerValue_get_def to_label_def assms(1,2) .
  have len: "length labels = length ids"
    using rel by (rule list_all2_lengthD [symmetric])
  show ?thesis
  proof (intro exI conjI)
    show "innerValue_get c = Inr (JArr labels)" by (fact shown)
    show "length labels = length ids" by (fact len)
    show "innerValue_set c (JArr labels) = Inr (Emit ''change'' (JArr ids))" by (fact emitted)
  qed
qed

theorem round_trip_with_distinct_labels_witness:
  "list_all labelled (elements team)
   \<and> labels_identify (elements team)
   \<and> list_all (\<lambda>i. list_ex (has_prop ''id'' i) (elements team)) [JNum 3, JNum 1, JNum 3]
   \<and> innerValue_get (data (JArr [JNum 3, JNum 1, JNum 3]) team)
       = Inr (JArr [JStr (str ''Bob''), JStr (str ''Alice''), JStr (str ''Bob'')])
   \<and> innerValue_set (data (JArr [JNum 3, JNum 1, JNum 3]) team)
        (JArr [JStr (str ''Bob''), JStr (str ''Alice''), JStr (str ''Bob'')])
       = Inr (Emit ''change'' (JArr [JNum 3, JNum 1, JNum 3]))"
proof -
  have h1: "userProfiles (data (JArr [JNum 3, JNum 1, JNum 3]) team) = JArr (elements team)"
    by (simp add: data_def team_def)
  have h2: "value_prop (data (JArr [JNum 3, JNum 1, JNum 3]) team) = JArr [JNum 3, JNum 1, JNum 3]"
    by (simp add: data_def)
  have h3: "list_all labelled (elements team)"
    by code_simp
  have h4: "labels_identify (elements team)"
    by code_simp
  have h5: "list_all (\<lambda>i. list_ex (has_prop ''id'' i) (elements team)) [JNum 3, JNum 1, JNum 3]"
    by code_simp
  have shown: "innerValue_get (data (JArr [JNum 3, JNum 1, JNum 3]) team)
      = Inr (JArr [JStr (str ''Bob''), JStr (str ''Alice''), JStr (str ''Bob'')])"
    by code_simp
  from round_trip_with_distinct_labels [OF h1 h2 h3 h4 h5] shown
  have "innerValue_set (data (JArr [JNum 3, JNum 1, JNum 3]) team)
        (JArr [JStr (str ''Bob''), JStr (str ''Alice''), JStr (str ''Bob'')])
       = Inr (Emit ''change'' (JArr [JNum 3, JNum 1, JNum 3]))"
    by auto
  with h3 h4 h5 shown show ?thesis
    by (intro conjI)
qed

section \<open>Filtering the options\<close>

text \<open>
  Claim C5, as stated, fails in two ways. First, the query \<open>al\<close> is a case-insensitive
  prefix of the name Alice, but with a profile list that begins with a record that has
  neither a name nor an email \<open>filterMethod\<close> throws a TypeError on that record and
  includes nobody. Second, the capitals KOS are the first three letters of the name
  KOSTAS, but lower-casing ends the query with a final sigma where the name has an
  ordinary one, and \<open>filterMethod\<close> leaves the profile out.
\<close>

theorem filterMethod_counterexample:
  "ci_prefix (str ''al'') (str ''Alice'')
   \<and> filterMethod greek_engine (data JNull nameless_first) (JStr (str ''al'')) = Inl TypeError
   \<and> take 3 kostas = kos
   \<and> filterMethod greek_engine (data JNull kostas_team) (JStr kos)
       = Inr ((data JNull kostas_team)\<lparr>filteredOptions := JArr []\<rparr>)"
proof -
  have "ci_prefix (str ''al'') (str ''Alice'')"
    by code_simp
  moreover have "filterMethod greek_engine (data JNull nameless_first) (JStr (str ''al''))
      = Inl TypeError"
    by code_simp
  moreover have "take 3 kostas = kos"
    by code_simp
  moreover have "filterMethod greek_engine (data JNull kostas_team) (JStr kos)
      = Inr ((data JNull kostas_team)\<lparr>filteredOptions := JArr []\<rparr>)"
    by code_simp
  ultimately show ?thesis
    by (intro conjI)
qed

text \<open>
  Claim C5, amended. Let the profiles be records whose name and email are each a string
  or missing, with a non-empty name or a string for an email. Then for every non-empty
  query string \<open>filterMethod\<close> sets \<open>filteredOptions\<close> to the profiles, in order, that the
  query matches: a profile is among the options if and only if it is in the list and the
  lower-cased query is a prefix of its lower-cased name or of its lower-cased email.
  For a query and a name or email in ASCII this says that the query is a
  case-insensitive prefix of the name or email; a query that occurs only further inside
  excludes the profile.
\<close>

theorem filterMethod_prefix_match:
  assumes "userProfiles c = JArr ps" and "list_all wf_profile ps" and "q \<noteq> []"
  shows "\<exists>r. filterMethod engine c (JStr q) = Inr (c\<lparr>filteredOptions := JArr r\<rparr>)
           \<and> r = filter (matches_query engine q) ps
           \<and> (\<forall>p. p \<in> set r \<longleftrightarrow> p \<in> set ps \<and> matches_query engine q p)
           \<and> (\<forall>p. matches_query engine q p \<longleftrightarrow>
                 (\<exists>s. (field p ''name'' = JStr s \<or> field p ''email'' = JStr s)
                    \<and> startsWith (lowered engine s) (lowered engine q)))
           \<and> (\<forall>s. is_ascii q \<and> is_ascii s \<longrightarrow>
                 (startsWith (lowered engine s) (lowered engine q) \<longleftrightarrow>
                    (\<exists>u t. s = u @ t \<and> map ascii_lower u = map ascii_lower q)))"
proof (intro exI conjI)
  show "filterMethod engine c (JStr q) =
      Inr (c\<lparr>filteredOptions := JArr (filter (matches_query engine q) ps)\<rparr>)"
    using assms by (rule filterMethod_wf)
  show "\<forall>p. matches_query engine q p \<longleftrightarrow>
          (\<exists>s. (field p ''name'' = JStr s \<or> field p ''email'' = JStr s)
             \<and> startsWith (lowered engine s) (lowered engine q))"
    using matches_query_iff by blast
  show "\<forall>s. is_ascii q \<and> is_ascii s \<longrightarrow>
          (startsWith (lowered engine s) (lowered engine q) \<longleftrightarrow>
             (\<exists>u t. s = u @ t \<and> map ascii_lower u = map ascii_lower q))"
    by (simp add: ascii_prefix ci_prefix_iff)
qed simp_all

theorem filterMethod_prefix_match_witness:
  "list_all wf_profile (elements team)
   \<and> filterMethod greek_engine (data JNull team) (JStr (str ''AL'')) =
       Inr ((data JNull team)\<lparr>filteredOptions :=
         JArr [JObj [(''id'', JNum 1), (''name'', JStr (str ''Alice'')),
                     (''email'', JStr (str ''zed@x.org'')), (''label'', JStr (str ''Alice''))],
               JObj [(''id'', JNum 2), (''name'', JNull), (''email'', JStr (str ''Al@x.org'')),
                     (''label'', JStr (str ''Al@x.org''))]]\<rparr>)
   \<and> filterMethod greek_engine (data JNull team) (JStr (str ''li'')) =
       Inr ((data JNull team)\<lparr>filteredOptions := JArr []\<rparr>)"
proof -
  have h1: "userProfiles (data JNull team) = JArr (elements team)"
    by (simp add: data_def team_def)
  have h2: "list_all wf_profile (elements team)"
    by code_simp
  have h3: "str ''AL'' \<noteq> []" "str ''li'' \<noteq> []"
    by (simp_all add: str_def)
  have al: "filter (matches_query greek_engine (str ''AL'')) (elements team) =
      [JObj [(''id'', JNum 1), (''name'', JStr (str ''Alice'')),
             (''email'', JStr (str ''zed@x.org'')), (''label'', JStr (str ''Alice''))],
       JObj [(''id'', JNum 2), (''name'', JNull), (''email'', JStr (str ''Al@x.org'')),
             (''label'', JStr (str ''Al@x.org''))]]"
    by code_simp
  have li: "filter (matches_query greek_engine (str ''li'')) (elements team) = []"
    by code_simp
  have "filterMethod greek_engine (data JNull team) (JStr (str ''AL'')) =
      Inr ((data JNull team)\<lparr>filteredOptions :=
        JArr (filter (matches_query greek_engine (str ''AL'')) (elements team))\<rparr>)"
    using filterMethod_prefix_match [OF h1 h2 h3(1), of greek_engine] by auto
  moreover have "filterMethod greek_engine (data JNull team) (JStr (str ''li'')) =
      Inr ((data JNull team)\<lparr>filteredOptions :=
        JArr (filter (matches_query greek_engine (str ''li'')) (elements team))\<rparr>)"
    using filterMethod_prefix_match [OF h1 h2 h3(2), of greek_engine] by auto
  ultimately show ?thesis
    using h2 by (simp only: al li simp_thms)
qed

text \<open>
  Claim C6, as stated, fails in its second half: no profile of the list below has a
  name or an email, so the query \<open>zz\<close> is a prefix of none, but \<open>filterMethod\<close> throws a
  TypeError and \<open>filteredOptions\<close> keeps the options it had instead of becoming empty.
\<close>

theorem empty_query_counterexample:
  "field (JObj [(''id'', JNum 5)]) ''name'' = JUndefined
   \<and> field (JObj [(''id'', JNum 5)]) ''email'' = JUndefined
   \<and> filterMethod greek_engine
        \<lparr>value_prop = JNull, userProfiles = JArr [JObj [(''id'', JNum 5)]],
         filteredOptions = team\<rparr>
        (JStr (str ''zz'')) = Inl TypeError"
proof -
  have "filterMethod greek_engine
        \<lparr>value_prop = JNull, userProfiles = JArr [JObj [(''id'', JNum 5)]],
         filteredOptions = team\<rparr>
        (JStr (str ''zz'')) = Inl TypeError"
    by code_simp
  then show ?thesis
    by (simp add: field_def)
qed

text \<open>
  Claim C6, amended. For the empty query, and for any falsy query, \<open>filterMethod\<close> sets
  \<open>filteredOptions\<close> to the empty list whatever the profile list holds (never the full
  list). And when the profiles are records whose name and email are each a string or
  missing, with a non-empty name or a string for an email, a non-empty query whose
  lower-cased form is a prefix of no profile's lower-cased name or email leaves no
  option either.
\<close>

theorem empty_query_no_options:
  "(\<not> truthy query \<longrightarrow> filterMethod engine c query = Inr (c\<lparr>filteredOptions := JArr []\<rparr>))
   \<and> filterMethod engine c (JStr []) = Inr (c\<lparr>filteredOptions := JArr []\<rparr>)
   \<and> (userProfiles c = JArr ps \<and> list_all wf_profile ps \<and> q \<noteq> []
        \<and> list_all (\<lambda>p. \<not> matches_query engine q p) ps
      \<longrightarrow> filterMethod engine c (JStr q) = Inr (c\<lparr>filteredOptions := JArr []\<rparr>))"
proof (intro conjI impI)
  assume "userProfiles c = JArr ps \<and> list_all wf_profile ps \<and> q \<noteq> []
        \<and> list_all (\<lambda>p. \<not> matches_query engine q p) ps"
  then have "filterMethod engine c (JStr q) =
        Inr (c\<lparr>filteredOptions := JArr (filter (matches_query engine q) ps)\<rparr>)"
    and "filter (matches_query engine q) ps = []"
    by (simp_all add: filterMethod_wf list_all_iff)
  then show "filterMethod engine c (JStr q) = Inr (c\<lparr>filteredOptions := JArr []\<rparr>)"
    by simp
qed (simp_all add: filterMethod_def)

theorem empty_query_no_options_witness:
  "\<not> truthy JNull
   \<and> filterMethod greek_engine ((data JNull team)\<lparr>filteredOptions := team\<rparr>) JNull =
       Inr ((data JNull team)\<lparr>filteredOptions := JArr []\<rparr>)
   \<and> filterMethod greek_engine ((data JNull team)\<lparr>filteredOptions := team\<rparr>) (JStr []) =
       Inr ((data JNull team)\<lparr>filteredOptions := JArr []\<rparr>)
   \<and> list_all wf_profile (elements team)
   \<and> list_all (\<lambda>p. \<not> matches_query greek_engine (str ''zed@y'') p) (elements team)
   \<and> filterMethod greek_engine ((data JNull team)\<lparr>filteredOptions := team\<rparr>) (JStr (str ''zed@y'')) =
       Inr ((data JNull team)\<lparr>filteredOptions := JArr []\<rparr>)"
proof -
  have h1: "userProfiles ((data JNull team)\<lparr>filteredOptions := team\<rparr>) = JArr (elements team)"
    by (simp add: data_def team_def)
  have h2: "list_all wf_profile (elements team)"
    by code_simp
  have h3: "list_all (\<lambda>p. \<not> matches_query greek_engine (str ''zed@y'') p) (elements team)"
    by code_simp
  have h4: "str ''zed@y'' \<noteq> []"
    by (simp add: str_def)
  have same: "(data JNull team)\<lparr>filteredOptions := team, filteredOptions := JArr []\<rparr>
      = (data JNull team)\<lparr>filteredOptions := JArr []\<rparr>"
    by simp
  show ?thesis
    using h2 h3 h4 empty_query_no_options [of JNull greek_engine
        "(data JNull team)\<lparr>filteredOptions := team\<rparr>" "elements team" "str ''zed@y''"] h1
    by (simp only: same truthy.simps simp_thms list.simps not_False_eq_True)
qed

end
